theory Spec2Isabelle
  imports Main "HOL-Library.AList"
begin

section \<open>Rarity of First First NFTs: a shallow embedding of \<open>first_first_nfts_rarity.py\<close>\<close>

text \<open>
  Conventions of the embedding.
  \<^item> A Python \<open>str\<close> is a \<open>string\<close>; one \<open>char\<close> stands for one code point below 256
    (the regular expression of the source compares code points only, and \<open>str.lower\<close> maps
    one such code point to one such code point). Texts with code points from 256 on are
    outside the model.
  \<^item> Token identifiers are Python integers (\<open>int\<close>); lengths and counts are \<open>nat\<close>.
  \<^item> A \<open>dict\<close>, a \<open>defaultdict\<close> and a \<open>Counter\<close> are association lists kept in insertion
    order with distinct keys, as Python keeps them; storing under a key is \<open>AList.update\<close>.
  \<^item> \<open>exit()\<close> and an uncaught exception end the run: they are the \<open>Inl\<close> results.
\<close>

subsection \<open>Constants\<close>

definition LIMIT :: int where
  "LIMIT = 50"

definition MAX_SUPPLY :: int where
  "MAX_SUPPLY = 5000"

text \<open>
  \<open>REGEX = '[^0-9a-zA-Z%-\\.]+'\<close>: a negated character set, repeated one or more times.
  Inside the brackets Python's \<open>re\<close> reads \<open>0-9\<close>, \<open>a-z\<close> and \<open>A-Z\<close> as ranges, and it reads
  \<open>%-\.\<close> as a range too: from \<open>%\<close> to the escaped \<open>.\<close>. The set is kept here as the list of
  its ranges, each with both ends included.
\<close>

definition REGEX_set :: "(char \<times> char) list" where
  "REGEX_set = [(CHR ''0'', CHR ''9''), (CHR ''a'', CHR ''z''), (CHR ''A'', CHR ''Z''),
                (CHR ''%'', CHR ''.'')]"

definition in_set :: "(char \<times> char) list \<Rightarrow> char \<Rightarrow> bool" where
  "in_set rs c = list_ex (\<lambda>(lo, hi). (of_char lo :: nat) \<le> of_char c \<and> (of_char c :: nat) \<le> of_char hi) rs"

subsection \<open>String primitives of Python used by the source\<close>

text \<open>\<open>str.lower\<close> on code points below 256: \<open>A\<close> to \<open>Z\<close>, and the Latin-1 capitals
  192 to 222 without the multiplication sign 215, move up by 32.\<close>

definition lower_char :: "char \<Rightarrow> char" where
  "lower_char c =
     (let n = (of_char c :: nat)
      in if (65 \<le> n \<and> n \<le> 90) \<or> (192 \<le> n \<and> n \<le> 222 \<and> n \<noteq> 215) then char_of (n + 32) else c)"

definition lower :: "string \<Rightarrow> string" where
  "lower s = map lower_char s"

text \<open>The slice \<open>s[:stop]\<close>: a negative \<open>stop\<close> counts from the end, and the bound is
  clamped to the string.\<close>

definition slice_to :: "'a list \<Rightarrow> int \<Rightarrow> 'a list" where
  "slice_to s stop =
     (let n = int (length s);
          j = (if stop < 0 then max 0 (n + stop) else min n stop)
      in take (nat j) s)"

text \<open>\<open>re.sub(p, repl, s)\<close> for a pattern \<open>[^...]+\<close>: scanning from the left, a character
  outside the set starts a match, which takes every following character outside the set
  (the repetition is greedy) and is replaced by \<open>repl\<close>; a character of the set is copied.\<close>

function re_sub :: "(char \<times> char) list \<Rightarrow> string \<Rightarrow> string \<Rightarrow> string" where
  "re_sub rs repl [] = []"
| "re_sub rs repl (c # cs) =
     (if \<not> in_set rs c then repl @ re_sub rs repl (dropWhile (\<lambda>d. \<not> in_set rs d) cs)
      else c # re_sub rs repl cs)"
  by pat_completeness auto
termination
  by (relation "measure (\<lambda>(rs, repl, s). length s)")
     (auto simp: less_Suc_eq_le length_dropWhile_le)

text \<open>\<open>s.split(sep)\<close> with a one-character separator: every separator cuts, so two
  separators in a row, or one at either end, give an empty piece; \<open>''.split(' ')\<close> is
  \<open>['']\<close>.\<close>

fun str_split :: "string \<Rightarrow> char \<Rightarrow> string list" where
  "str_split [] sep = [[]]"
| "str_split (c # cs) sep =
     (if c = sep then [] # str_split cs sep
      else (case str_split cs sep of
              [] \<Rightarrow> [[c]]
            | w # ws \<Rightarrow> (c # w) # ws))"

subsection \<open>Normalising and tokenising one text (\<open>organize_text_data\<close>, lines 196 to 208)\<close>

text \<open>Lines 196 and 197: \<open>text = text.lower()\<close>, then \<open>text = text[:len(text) - 1]\<close>.\<close>

definition normalize_text :: "string \<Rightarrow> string" where
  "normalize_text raw = (let text = lower raw in slice_to text (int (length text) - 1))"

text \<open>Lines 204 to 208: \<open>re.sub(REGEX, ' ', text)\<close>, \<open>split(' ')\<close>, and the comprehension
  that keeps the pieces different from \<open>''\<close>.\<close>

definition tokenize :: "string \<Rightarrow> string list" where
  "tokenize text = filter (\<lambda>item. item \<noteq> []) (str_split (re_sub REGEX_set '' '' text) CHR '' '')"

text \<open>
  The tokenizer as section 4.3 of the specification words it, for comparison with
  \<open>tokenize\<close>: the characters kept are the alphanumeric ones and \<open>%\<close>, \<open>-\<close>, \<open>.\<close>; every
  maximal run of other characters becomes one space; the result is split on spaces and the
  empty fragments are dropped.
\<close>

definition spec_kept :: "char \<Rightarrow> bool" where
  "spec_kept c =
     (in_set [(CHR ''0'', CHR ''9''), (CHR ''a'', CHR ''z''), (CHR ''A'', CHR ''Z'')] c
      \<or> c = CHR ''%'' \<or> c = CHR ''-'' \<or> c = CHR ''.'')"

fun spec_runs :: "string \<Rightarrow> string" where
  "spec_runs [] = []"
| "spec_runs [c] = (if spec_kept c then [c] else '' '')"
| "spec_runs (c # d # cs) =
     (if spec_kept c then c # spec_runs (d # cs)
      else if spec_kept d then CHR '' '' # spec_runs (d # cs)
      else spec_runs (d # cs))"

definition spec_tokenize :: "string \<Rightarrow> string list" where
  "spec_tokenize text = filter (\<lambda>item. item \<noteq> []) (str_split (spec_runs text) CHR '' '')"

subsection \<open>Dictionaries\<close>

text \<open>\<open>d.get(k, dflt)\<close>; on a \<open>defaultdict\<close> or a \<open>Counter\<close> it is also the value of
  \<open>d[k]\<close>, with the default of that dictionary (\<open>[]\<close>, or \<open>0\<close>).\<close>

definition dict_get :: "('k \<times> 'v) list \<Rightarrow> 'k \<Rightarrow> 'v \<Rightarrow> 'v" where
  "dict_get d k dflt = (case map_of d k of None \<Rightarrow> dflt | Some v \<Rightarrow> v)"

text \<open>\<open>d[k].append(v)\<close> on a \<open>defaultdict(lambda: [])\<close>.\<close>

definition dd_append :: "('k \<times> 'v list) list \<Rightarrow> 'k \<Rightarrow> 'v \<Rightarrow> ('k \<times> 'v list) list" where
  "dd_append d k v = AList.update k (dict_get d k [] @ [v]) d"

text \<open>\<open>Counter(data)\<close>: the elements are counted from left to right, so the keys stand in
  the order in which they are first met.\<close>

definition Counter :: "'k list \<Rightarrow> ('k \<times> nat) list" where
  "Counter data = foldl (\<lambda>c elem. AList.update elem (dict_get c elem 0 + 1) c) [] data"

subsection \<open>The outside world\<close>

text \<open>
  The three services the program talks to. A request that raises one of the exceptions
  caught by \<open>send_request\<close>, and a contract call that raises \<open>SolidityError\<close>, answer
  \<open>None\<close>. The answer of the index is taken as decoded already: the \<open>token_id\<close> fields of
  its \<open>assets\<close>, as integers. Answers of another shape, and other exceptions of the
  libraries, are not modelled.
\<close>

record services =
  etherscan_getabi :: "unit option"
  opensea_assets :: "int \<Rightarrow> int \<Rightarrow> int list option"
  getString :: "int \<Rightarrow> string option"

datatype error =
  RequestError | SolidityError | SanityCheckFailed | IndexError | ZeroDivisionError

text \<open>What a run does to the outside, in order: the requests, the contract calls, and the
  diagnostic of the sanity check. Progress bars, time stamps, pauses, the printed
  statistics, plots and the writing of the three files are left out.\<close>

datatype event = GetAbi | GetAssets int int | CallGetString int | Print string

text \<open>\<open>send_request\<close>: the response, or a printed label and \<open>exit()\<close>.\<close>

definition send_request :: "event \<Rightarrow> 'r option \<Rightarrow> (error + 'r) \<times> event list" where
  "send_request url answer =
     (case answer of
        None \<Rightarrow> (Inl RequestError, [url])
      | Some response \<Rightarrow> (Inr response, [url]))"

definition connect_to_contract :: "services \<Rightarrow> (error + (int \<Rightarrow> string option)) \<times> event list" where
  "connect_to_contract svc =
     (case send_request GetAbi (etherscan_getabi svc) of
        (Inl e, evs) \<Rightarrow> (Inl e, evs)
      | (Inr abi, evs) \<Rightarrow> (Inr (getString svc), evs))"

subsection \<open>\<open>get_claimed_token_ids\<close>\<close>

function claimed_loop :: "services \<Rightarrow> int \<Rightarrow> int list \<Rightarrow> (error + int list) \<times> event list" where
  "claimed_loop svc offset claimed =
     (if offset \<le> MAX_SUPPLY - LIMIT then
        (case send_request (GetAssets offset LIMIT) (opensea_assets svc offset LIMIT) of
           (Inl e, evs) \<Rightarrow> (Inl e, evs)
         | (Inr assets, evs) \<Rightarrow>
             (case claimed_loop svc (offset + LIMIT) (claimed @ assets) of
                (r, evs') \<Rightarrow> (r, evs @ evs')))
      else (Inr claimed, []))"
  by pat_completeness auto
termination
  by (relation "measure (\<lambda>(svc, offset, claimed). nat (MAX_SUPPLY - offset))")
     (auto simp: LIMIT_def MAX_SUPPLY_def)

declare claimed_loop.simps [simp del]

definition get_claimed_token_ids :: "services \<Rightarrow> (error + int list) \<times> event list" where
  "get_claimed_token_ids svc = claimed_loop svc 0 []"

subsection \<open>\<open>organize_text_data\<close>\<close>

record 'w text_data =
  output_words :: "'w list"
  output_total_word_counts :: "nat list"
  output_complete_texts :: "string list"
  output_word_to_token_id :: "(string \<times> int list) list"
  output_total_word_count_to_token_id :: "(nat \<times> int list) list"
  output_complete_text_to_token_id :: "(string \<times> int list) list"

text \<open>Lines 196 to 219, for the string \<open>raw\<close> that the contract returned for \<open>token_id\<close>.
  Until the end of the loop \<open>output_words\<close> holds one list of words per text.\<close>

definition store_text :: "string list text_data \<Rightarrow> int \<Rightarrow> string \<Rightarrow> string list text_data" where
  "store_text s token_id raw =
     (let text = normalize_text raw;
          s = s\<lparr>output_complete_texts := output_complete_texts s @ [text]\<rparr>;
          s = s\<lparr>output_complete_text_to_token_id :=
                  dd_append (output_complete_text_to_token_id s) text token_id\<rparr>;
          text = tokenize text;
          s = s\<lparr>output_words := output_words s @ [text]\<rparr>;
          s = s\<lparr>output_total_word_counts := output_total_word_counts s @ [length text]\<rparr>;
          s = s\<lparr>output_word_to_token_id :=
                  foldl (\<lambda>d word. dd_append d word token_id) (output_word_to_token_id s) text\<rparr>;
          s = s\<lparr>output_total_word_count_to_token_id :=
                  dd_append (output_total_word_count_to_token_id s) (length text) token_id\<rparr>
      in s)"

fun organize_loop ::
  "(int \<Rightarrow> string option) \<Rightarrow> string list text_data \<Rightarrow> int list
     \<Rightarrow> (error + string list text_data) \<times> event list" where
  "organize_loop contract s [] = (Inr s, [])"
| "organize_loop contract s (token_id # rest) =
     (case contract token_id of
        None \<Rightarrow> (Inl SolidityError, [CallGetString token_id])
      | Some raw \<Rightarrow>
          (case organize_loop contract (store_text s token_id raw) rest of
             (r, evs) \<Rightarrow> (r, CallGetString token_id # evs)))"

definition organize_text_data ::
  "int list \<Rightarrow> (int \<Rightarrow> string option) \<Rightarrow> (error + string text_data) \<times> event list" where
  "organize_text_data claimed contract =
     (case organize_loop contract
             \<lparr>output_words = [], output_total_word_counts = [], output_complete_texts = [],
              output_word_to_token_id = [], output_total_word_count_to_token_id = [],
              output_complete_text_to_token_id = []\<rparr> claimed of
        (Inl e, evs) \<Rightarrow> (Inl e, evs)
      | (Inr s, evs) \<Rightarrow>
          (Inr \<lparr>output_words = concat (output_words s),
                output_total_word_counts = output_total_word_counts s,
                output_complete_texts = output_complete_texts s,
                output_word_to_token_id = output_word_to_token_id s,
                output_total_word_count_to_token_id = output_total_word_count_to_token_id s,
                output_complete_text_to_token_id = output_complete_text_to_token_id s\<rparr>, evs))"

subsection \<open>\<open>get_rarity\<close>\<close>

text \<open>One tuple of the output: \<open>(key, value, rarity[key], mapping[key])\<close>.\<close>

record 'k rarity_record =
  key :: 'k
  occurrenceCount :: nat
  rarityPercentage :: string
  tokenIds :: "int list"

text \<open>
  \<open>percent value tot\<close> stands for \<open>str(round((value / total) * HUNDRED, ROUND_DIGITS))\<close>,
  which is floating-point arithmetic and its printing; it is a parameter of the model.
  The division raises \<open>ZeroDivisionError\<close> for the first key when \<open>total\<close> (here \<open>tot\<close>) is 0.
  \<open>mapping\<close> is a \<open>defaultdict\<close> with default \<open>[]\<close>, as in all three calls of the program.
  \<open>rarity\<close> is a \<open>Counter\<close>; every key read from it was stored by the loop before.
  \<open>sorted\<close> is stable, as \<open>sort_key\<close> is.
\<close>

definition get_rarity ::
  "(nat \<Rightarrow> int \<Rightarrow> string) \<Rightarrow> 'k list \<Rightarrow> ('k \<times> int list) list \<Rightarrow> int
     \<Rightarrow> error + 'k rarity_record list" where
  "get_rarity percent data mapping tot =
     (let counter = Counter data
      in if counter \<noteq> [] \<and> tot = 0 then Inl ZeroDivisionError
         else
           (let rarity = foldl (\<lambda>r (key, value). AList.update key (percent value tot @ ''%'') r)
                           [] counter;
                output = map (\<lambda>(key, value).
                                \<lparr>key = key, occurrenceCount = value,
                                 rarityPercentage = dict_get rarity key [],
                                 tokenIds = dict_get mapping key []\<rparr>) counter
            in Inr (sort_key occurrenceCount output)))"

subsection \<open>The program\<close>

text \<open>
  \<open>print_descriptive_stats\<close>, lines 247 to 256. The mean, the median and the standard
  deviation are floating-point numbers that are only printed; of empty data they are \<open>nan\<close>,
  with a warning. \<open>stats.mode(word_data)[0][0]\<close> reads the first entry of the array of
  modes: of empty data that array is empty and the read raises \<open>IndexError\<close>, which nothing
  catches. The printed lines are left out; the failure is kept.
\<close>

definition print_descriptive_stats :: "nat list \<Rightarrow> error + unit" where
  "print_descriptive_stats word_data = (if word_data = [] then Inl IndexError else Inr ())"

text \<open>
  Lines 388 to 416: the texts are organized, the statistics of the word lengths (line 396)
  and of the word counts (line 408) are printed, then \<open>get_rarity\<close> is called three times.
  \<open>print_longest_word\<close>, \<open>print_distinct_words\<close> and \<open>generate_plot\<close> only print and draw.
\<close>

definition rarity_tables ::
  "(nat \<Rightarrow> int \<Rightarrow> string) \<Rightarrow> int list \<Rightarrow> (int \<Rightarrow> string option)
     \<Rightarrow> (error + string rarity_record list \<times> nat rarity_record list \<times> string rarity_record list)
         \<times> event list" where
  "rarity_tables percent claimed_token_ids nft_contract =
     (case organize_text_data claimed_token_ids nft_contract of
        (Inl e, evs) \<Rightarrow> (Inl e, evs)
      | (Inr d, evs) \<Rightarrow>
          (let word_lengths = map length (output_words d)
           in case print_descriptive_stats word_lengths of
                Inl e \<Rightarrow> (Inl e, evs)
              | Inr u \<Rightarrow>
          (case print_descriptive_stats (output_total_word_counts d) of
             Inl e \<Rightarrow> (Inl e, evs)
           | Inr u \<Rightarrow>
          (case get_rarity percent (output_words d) (output_word_to_token_id d)
                  (int (length (output_words d))) of
             Inl e \<Rightarrow> (Inl e, evs)
           | Inr words \<Rightarrow>
               (case get_rarity percent (output_total_word_counts d)
                       (output_total_word_count_to_token_id d) MAX_SUPPLY of
                  Inl e \<Rightarrow> (Inl e, evs)
                | Inr total_word_counts \<Rightarrow>
                    (case get_rarity percent (output_complete_texts d)
                            (output_complete_text_to_token_id d) MAX_SUPPLY of
                       Inl e \<Rightarrow> (Inl e, evs)
                     | Inr complete_texts \<Rightarrow>
                         (Inr (words, total_word_counts, complete_texts), evs)))))))"

text \<open>Lines 375 to 416.\<close>

definition main ::
  "(nat \<Rightarrow> int \<Rightarrow> string) \<Rightarrow> services
     \<Rightarrow> (error + string rarity_record list \<times> nat rarity_record list \<times> string rarity_record list)
         \<times> event list" where
  "main percent svc =
     (case connect_to_contract svc of
        (Inl e, evs0) \<Rightarrow> (Inl e, evs0)
      | (Inr nft_contract, evs0) \<Rightarrow>
          (case get_claimed_token_ids svc of
             (Inl e, evs1) \<Rightarrow> (Inl e, evs0 @ evs1)
           | (Inr claimed_token_ids, evs1) \<Rightarrow>
               if int (length claimed_token_ids) \<noteq> MAX_SUPPLY
               then (Inl SanityCheckFailed,
                     evs0 @ evs1 @ [Print ''There should be 5000 tokens. Something went wrong.''])
               else (case rarity_tables percent claimed_token_ids nft_contract of
                       (r, evs2) \<Rightarrow> (r, evs0 @ evs1 @ evs2))))"

subsection \<open>Notions used to state the properties\<close>

text \<open>The position at which \<open>k\<close> is first met in \<open>data\<close> (the length of \<open>data\<close> when it is
  never met).\<close>

definition first_index :: "'k list \<Rightarrow> 'k \<Rightarrow> nat" where
  "first_index data k = length (takeWhile (\<lambda>x. x \<noteq> k) data)"

text \<open>The normalized text and the tokens of an identifier, read through the contract (the
  empty text where the call fails; the statements below that use them are about runs in
  which no call fails).\<close>

definition text_of :: "(int \<Rightarrow> string option) \<Rightarrow> int \<Rightarrow> string" where
  "text_of contract token_id =
     (case contract token_id of None \<Rightarrow> [] | Some raw \<Rightarrow> normalize_text raw)"

definition tokens_of :: "(int \<Rightarrow> string option) \<Rightarrow> int \<Rightarrow> string list" where
  "tokens_of contract token_id = tokenize (text_of contract token_id)"

subsection \<open>Auxiliary functions of the proofs\<close>

text \<open>The loop of \<open>organize_text_data\<close> without its failure branch.\<close>

definition store_all ::
  "(int \<Rightarrow> string option) \<Rightarrow> string list text_data \<Rightarrow> int list \<Rightarrow> string list text_data" where
  "store_all contract s ts =
     foldl (\<lambda>s t. case contract t of None \<Rightarrow> s | Some raw \<Rightarrow> store_text s t raw) s ts"

text \<open>The list \<open>output\<close> of \<open>get_rarity\<close> before it is sorted.\<close>

definition rarity_rows ::
  "(nat \<Rightarrow> int \<Rightarrow> string) \<Rightarrow> 'k list \<Rightarrow> ('k \<times> int list) list \<Rightarrow> int \<Rightarrow> 'k rarity_record list" where
  "rarity_rows percent data mapping tot =
     map (\<lambda>(key, value).
            \<lparr>key = key, occurrenceCount = value,
             rarityPercentage =
               dict_get (foldl (\<lambda>r (key, value). AList.update key (percent value tot @ ''%'') r)
                           [] (Counter data)) key [],
             tokenIds = dict_get mapping key []\<rparr>) (Counter data)"

subsection \<open>Sample inputs\<close>

text \<open>A contract with two texts, the first of which repeats a word, and what the program
  computes from it.\<close>

abbreviation sample_contract :: "int \<Rightarrow> string option" where
  "sample_contract \<equiv>
     (\<lambda>token_id. if token_id = 7 then Some ''The cat the.''
                 else if token_id = 8 then Some ''The dog.'' else None)"

abbreviation sample_data :: "string text_data" where
  "sample_data \<equiv>
     \<lparr>output_words = [''the'', ''cat'', ''the'', ''the'', ''dog''],
      output_total_word_counts = [3, 2],
      output_complete_texts = [''the cat the'', ''the dog''],
      output_word_to_token_id = [(''the'', [7, 7, 8]), (''cat'', [7]), (''dog'', [8])],
      output_total_word_count_to_token_id = [(3, [7]), (2, [8])],
      output_complete_text_to_token_id = [(''the cat the'', [7]), (''the dog'', [8])]\<rparr>"

text \<open>A stand-in for the rendering of the percentage.\<close>

abbreviation sample_percent :: "nat \<Rightarrow> int \<Rightarrow> string" where
  "sample_percent \<equiv> (\<lambda>value tot. ''?'')"

abbreviation sample_words :: "string rarity_record list" where
  "sample_words \<equiv>
     [\<lparr>key = ''cat'', occurrenceCount = 1, rarityPercentage = ''?%'', tokenIds = [7]\<rparr>,
      \<lparr>key = ''dog'', occurrenceCount = 1, rarityPercentage = ''?%'', tokenIds = [8]\<rparr>,
      \<lparr>key = ''the'', occurrenceCount = 3, rarityPercentage = ''?%'', tokenIds = [7, 7, 8]\<rparr>]"

abbreviation sample_total_word_counts :: "nat rarity_record list" where
  "sample_total_word_counts \<equiv>
     [\<lparr>key = 3, occurrenceCount = 1, rarityPercentage = ''?%'', tokenIds = [7]\<rparr>,
      \<lparr>key = 2, occurrenceCount = 1, rarityPercentage = ''?%'', tokenIds = [8]\<rparr>]"

abbreviation sample_complete_texts :: "string rarity_record list" where
  "sample_complete_texts \<equiv>
     [\<lparr>key = ''the cat the'', occurrenceCount = 1, rarityPercentage = ''?%'', tokenIds = [7]\<rparr>,
      \<lparr>key = ''the dog'', occurrenceCount = 1, rarityPercentage = ''?%'', tokenIds = [8]\<rparr>]"

text \<open>The words of the three-text scenario of the specification, and their records.\<close>

abbreviation scenario_words :: "string list" where
  "scenario_words \<equiv>
     [''the'', ''cat'', ''sat'', ''the'', ''dog'', ''sat'', ''the'', ''cat'', ''sat'']"

abbreviation scenario_records :: "string rarity_record list" where
  "scenario_records \<equiv>
     [\<lparr>key = ''dog'', occurrenceCount = 1, rarityPercentage = ''?%'', tokenIds = []\<rparr>,
      \<lparr>key = ''cat'', occurrenceCount = 2, rarityPercentage = ''?%'', tokenIds = []\<rparr>,
      \<lparr>key = ''the'', occurrenceCount = 3, rarityPercentage = ''?%'', tokenIds = []\<rparr>,
      \<lparr>key = ''sat'', occurrenceCount = 3, rarityPercentage = ''?%'', tokenIds = []\<rparr>]"

text \<open>An index that answers every request with an empty page.\<close>

abbreviation empty_index :: services where
  "empty_index \<equiv> \<lparr>etherscan_getabi = Some (), opensea_assets = (\<lambda>offset limit. Some []),
                   getString = (\<lambda>token_id. None)\<rparr>"

section \<open>Properties\<close>

subsection \<open>The tokenizer\<close>

text \<open>
  C8. The text \<open>"AB-12.3%!!x"\<close>, lower-cased and then tokenized, gives exactly the two tokens
  \<open>"ab-12.3%"\<close> and \<open>"x"\<close>.
\<close>

theorem tokenize_scenario:
  "tokenize (lower ''AB-12.3%!!x'') = [''ab-12.3%'', ''x'']"
  by code_simp

text \<open>What the tokenizer guarantees: no token is empty, and every character of a token
  lies in one of the four ranges of \<open>REGEX\<close>.\<close>

lemma set_re_sub: "set (re_sub rs repl s) \<subseteq> set repl \<union> {c \<in> set s. in_set rs c}"
proof (induction rs repl s rule: re_sub.induct)
  case (1 rs repl)
  show ?case by simp
next
  case (2 rs repl c cs)
  have "set (dropWhile (\<lambda>d. \<not> in_set rs d) cs) \<subseteq> set cs"
    by (rule set_dropWhileD [THEN subsetI])
  with 2 show ?case
    by (cases "in_set rs c") auto
qed

lemma str_split_pieces: "str_split s sep \<noteq> []"
  by (cases s) (auto split: list.splits)

lemma set_str_split: "w \<in> set (str_split s sep) \<Longrightarrow> set w \<subseteq> set s - {sep}"
proof (induction s arbitrary: w)
  case Nil
  then show ?case by simp
next
  case (Cons c s)
  show ?case
  proof (cases "c = sep")
    case True
    with Cons.prems have "w = [] \<or> w \<in> set (str_split s sep)"
      by simp
    with Cons.IH show ?thesis
      by auto
  next
    case False
    obtain w0 ws where pieces: "str_split s sep = w0 # ws"
      using str_split_pieces [of s sep] by (cases "str_split s sep") auto
    with Cons.prems False have "w = c # w0 \<or> w \<in> set ws"
      by simp
    moreover have "set w0 \<subseteq> set s - {sep}" and "\<forall>v \<in> set ws. set v \<subseteq> set s - {sep}"
      using Cons.IH pieces by simp_all
    ultimately show ?thesis
      using False by auto
  qed
qed

lemma tokenize_tokens:
  assumes "w \<in> set (tokenize s)"
  shows "w \<noteq> []" and "list_all (in_set REGEX_set) w"
proof -
  from assms show "w \<noteq> []"
    by (simp add: tokenize_def)
  from assms have "set w \<subseteq> set (re_sub REGEX_set '' '' s) - {CHR '' ''}"
    by (simp add: tokenize_def set_str_split)
  with set_re_sub [of REGEX_set "'' ''" s] show "list_all (in_set REGEX_set) w"
    by (auto simp: list_all_iff)
qed

text \<open>
  C1. The tokenizer equals the reference definition of the specification (keep the
  alphanumeric characters and \<open>%\<close>, \<open>-\<close>, \<open>.\<close>; turn every maximal run of other characters
  into one space; split on spaces; drop the empty fragments), so every character of a token
  is alphanumeric or one of \<open>%\<close>, \<open>-\<close>, \<open>.\<close>. The program does not: on the text \<open>"a,b"\<close> it
  keeps the comma and returns the single token \<open>"a,b"\<close>, where the reference definition
  returns \<open>"a"\<close> and \<open>"b"\<close>. The range \<open>%-\.\<close> of \<open>REGEX\<close> also keeps
  \<open>& ' ( ) * + ,\<close>, against the comment of line 38.
\<close>

theorem tokenize_keeps_comma:
  "tokenize ''a,b'' = [''a,b''] \<and> spec_tokenize ''a,b'' = [''a'', ''b'']"
  by code_simp

text \<open>Line 197 removes the last character, and nothing of an empty string.\<close>

lemma normalize_text_butlast: "normalize_text raw = butlast (lower raw)"
proof (cases raw)
  case Nil
  then show ?thesis
    by (simp add: normalize_text_def slice_to_def lower_def)
next
  case (Cons c cs)
  then have "int (length (lower raw)) - 1 \<ge> 0"
    by (simp add: lower_def)
  then show ?thesis
    by (simp add: normalize_text_def slice_to_def Let_def butlast_conv_take nat_diff_distrib')
qed

subsection \<open>Dictionaries and \<open>Counter\<close>\<close>

lemma dict_get_Nil: "dict_get [] k dflt = dflt"
  by (simp add: dict_get_def)

lemma dict_get_update:
  "dict_get (AList.update k v d) k' dflt = (if k' = k then v else dict_get d k' dflt)"
  by (simp add: dict_get_def update_conv')

lemma dict_get_dd_append:
  "dict_get (dd_append d k v) k' [] = (if k' = k then dict_get d k [] @ [v] else dict_get d k' [])"
  by (simp add: dd_append_def dict_get_update)

lemma Counter_Nil: "Counter [] = []"
  by (simp add: Counter_def)

lemma Counter_snoc:
  "Counter (data @ [x]) = AList.update x (dict_get (Counter data) x 0 + 1) (Counter data)"
  by (simp add: Counter_def)

lemma dict_get_Counter: "dict_get (Counter data) k 0 = count_list data k"
  by (induction data rule: rev_induct)
     (auto simp: Counter_Nil Counter_snoc dict_get_Nil dict_get_update)

lemma keys_Counter_snoc:
  "map fst (Counter (data @ [x])) =
     (if x \<in> fst ` set (Counter data) then map fst (Counter data) else map fst (Counter data) @ [x])"
  by (simp add: Counter_snoc update_keys)

lemma set_keys_Counter: "fst ` set (Counter data) = set data"
  by (induction data rule: rev_induct)
     (auto simp: Counter_Nil Counter_snoc dom_update)

lemma distinct_keys_Counter: "distinct (map fst (Counter data))"
  by (induction data rule: rev_induct)
     (simp_all add: Counter_Nil Counter_snoc distinct_update)

lemma Counter_entry:
  assumes "(k, n) \<in> set (Counter data)"
  shows "n = count_list data k" and "k \<in> set data"
proof -
  from assms have "map_of (Counter data) k = Some n"
    by (simp add: distinct_keys_Counter)
  then have "dict_get (Counter data) k 0 = n"
    by (simp add: dict_get_def)
  then show "n = count_list data k"
    by (simp add: dict_get_Counter)
  from assms have "k \<in> fst ` set (Counter data)"
    by force
  then show "k \<in> set data"
    by (simp add: set_keys_Counter)
qed

lemma sum_update_bump:
  "sum_list (map snd (AList.update k (Suc (dict_get al k 0)) al)) = Suc (sum_list (map snd al))"
  by (induction al) (auto simp: dict_get_def)

lemma sum_Counter: "sum_list (map snd (Counter data)) = length data"
  by (induction data rule: rev_induct)
     (simp_all add: Counter_Nil Counter_snoc sum_update_bump)

text \<open>The keys of a \<open>Counter\<close> stand in the order of their first positions in the data.\<close>

lemma first_index_less: "k \<in> set data \<Longrightarrow> first_index data k < length data"
  by (induction data) (auto simp: first_index_def)

lemma first_index_snoc_old: "k \<in> set data \<Longrightarrow> first_index (data @ ys) k = first_index data k"
  by (simp add: first_index_def takeWhile_append1)

lemma first_index_snoc_new: "x \<notin> set data \<Longrightarrow> first_index (data @ [x]) x = length data"
proof -
  assume "x \<notin> set data"
  then have "takeWhile (\<lambda>y. y \<noteq> x) (data @ [x]) = data @ takeWhile (\<lambda>y. y \<noteq> x) [x]"
    by (intro takeWhile_append2) auto
  then show ?thesis
    by (simp add: first_index_def)
qed

lemma keys_Counter_first_seen:
  "sorted_wrt (\<lambda>a b. first_index data a < first_index data b) (map fst (Counter data))"
proof (induction data rule: rev_induct)
  case Nil
  show ?case by (simp add: Counter_Nil)
next
  case (snoc x xs)
  have old: "sorted_wrt (\<lambda>a b. first_index (xs @ [x]) a < first_index (xs @ [x]) b)
               (map fst (Counter xs))"
  proof (rule sorted_wrt_mono_rel [OF _ snoc.IH])
    fix a b
    assume "a \<in> set (map fst (Counter xs))" "b \<in> set (map fst (Counter xs))"
      and "first_index xs a < first_index xs b"
    then show "first_index (xs @ [x]) a < first_index (xs @ [x]) b"
      using set_keys_Counter [of xs] by (simp add: first_index_snoc_old)
  qed
  show ?case
  proof (cases "x \<in> set xs")
    case True
    then show ?thesis
      using old by (simp add: keys_Counter_snoc set_keys_Counter)
  next
    case False
    have "first_index (xs @ [x]) a < first_index (xs @ [x]) x" if "a \<in> set xs" for a
      using that False by (simp add: first_index_snoc_old first_index_snoc_new first_index_less)
    then show ?thesis
      using old False set_keys_Counter [of xs]
      by (simp add: keys_Counter_snoc sorted_wrt_append)
  qed
qed

subsection \<open>The stable sort\<close>

lemma insort_key_ties:
  assumes "sorted_wrt (\<lambda>a b. f a = f b \<longrightarrow> R a b) ys" and "\<forall>y \<in> set ys. R x y"
  shows "sorted_wrt (\<lambda>a b. f a = f b \<longrightarrow> R a b) (insort_key f x ys)"
  using assms by (induction ys) (auto simp: set_insort_key)

lemma sort_key_ties:
  fixes f :: "'a \<Rightarrow> nat"
  assumes "sorted_wrt R xs"
  shows "sorted_wrt (\<lambda>a b. f a = f b \<longrightarrow> R a b) (sort_key f xs)"
  using assms
proof (induction xs)
  case Nil
  show ?case by simp
next
  case (Cons x xs)
  then show ?case
    by (simp add: insort_key_ties)
qed

lemma sum_insort_key:
  fixes g :: "'a \<Rightarrow> nat" and f :: "'a \<Rightarrow> nat"
  shows "sum_list (map g (insort_key f x xs)) = g x + sum_list (map g xs)"
  by (induction xs) simp_all

lemma sum_sort_key:
  fixes g :: "'a \<Rightarrow> nat" and f :: "'a \<Rightarrow> nat"
  shows "sum_list (map g (sort_key f xs)) = sum_list (map g xs)"
  by (induction xs) (simp_all add: sum_insort_key)

subsection \<open>\<open>get_rarity\<close>\<close>

lemma get_rarity_Inr:
  "get_rarity percent data mapping tot = Inr rs \<Longrightarrow>
     rs = sort_key occurrenceCount (rarity_rows percent data mapping tot)"
  by (auto simp: get_rarity_def rarity_rows_def Let_def split: if_splits)

text \<open>\<open>get_rarity\<close> returns unless it divides by zero.\<close>

lemma get_rarity_returns:
  "(\<exists>rs. get_rarity percent data mapping tot = Inr rs) \<longleftrightarrow> (tot \<noteq> 0 \<or> data = [])"
proof -
  have "Counter data = [] \<longleftrightarrow> data = []"
    using set_keys_Counter [of data] by (metis image_is_empty set_empty)
  then show ?thesis
    by (auto simp: get_rarity_def Let_def)
qed

lemma keys_rarity_rows:
  "map key (rarity_rows percent data mapping tot) = map fst (Counter data)"
  by (simp add: rarity_rows_def case_prod_unfold comp_def)

lemma counts_rarity_rows:
  "map occurrenceCount (rarity_rows percent data mapping tot) = map snd (Counter data)"
  by (simp add: rarity_rows_def case_prod_unfold comp_def)

lemma rarity_row:
  assumes "r \<in> set (rarity_rows percent data mapping tot)"
  shows "key r \<in> set data" and "occurrenceCount r = count_list data (key r)"
    and "tokenIds r = dict_get mapping (key r) []"
proof -
  from assms obtain k n where kn: "(k, n) \<in> set (Counter data)"
    and r: "key r = k" "occurrenceCount r = n" "tokenIds r = dict_get mapping k []"
    by (auto simp: rarity_rows_def)
  from Counter_entry [OF kn] r show "key r \<in> set data"
    and "occurrenceCount r = count_list data (key r)" and "tokenIds r = dict_get mapping (key r) []"
    by simp_all
qed

text \<open>Each record holds a key of the data, the number of its occurrences there, and the
  list stored under it in the mapping.\<close>

lemma get_rarity_row:
  assumes "get_rarity percent data mapping tot = Inr rs" and "r \<in> set rs"
  shows "key r \<in> set data" and "occurrenceCount r = count_list data (key r)"
    and "tokenIds r = dict_get mapping (key r) []"
proof -
  from assms have "r \<in> set (rarity_rows percent data mapping tot)"
    by (simp add: get_rarity_Inr [OF assms(1)])
  then show "key r \<in> set data" and "occurrenceCount r = count_list data (key r)"
    and "tokenIds r = dict_get mapping (key r) []"
    by (rule rarity_row)+
qed

text \<open>The counts of the records add up to the length of the data.\<close>

lemma get_rarity_sum:
  assumes "get_rarity percent data mapping tot = Inr rs"
  shows "sum_list (map occurrenceCount rs) = length data"
proof -
  have "sum_list (map occurrenceCount rs)
          = sum_list (map occurrenceCount (rarity_rows percent data mapping tot))"
    unfolding get_rarity_Inr [OF assms] by (rule sum_sort_key)
  also have "\<dots> = length data"
    by (simp only: counts_rarity_rows sum_Counter)
  finally show ?thesis .
qed

text \<open>The percentage of a record is the rendering of its own count, followed by \<open>%\<close>: the
  lookup in \<open>rarity\<close> never falls back on the default.\<close>

lemma foldl_update_other:
  "k \<notin> fst ` set al \<Longrightarrow>
     dict_get (foldl (\<lambda>r (key, value). AList.update key (f value) r) r al) k dflt = dict_get r k dflt"
  by (induction al arbitrary: r) (auto simp: dict_get_update)

lemma foldl_update_stored:
  "distinct (map fst al) \<Longrightarrow> (k, v) \<in> set al \<Longrightarrow>
     dict_get (foldl (\<lambda>r (key, value). AList.update key (f value) r) r al) k dflt = f v"
proof (induction al arbitrary: r)
  case Nil
  then show ?case by simp
next
  case (Cons p al)
  show ?case
  proof (cases "p = (k, v)")
    case True
    with Cons.prems(1) have "k \<notin> fst ` set al"
      by auto
    then show ?thesis
      using True by (simp add: foldl_update_other dict_get_update)
  next
    case False
    with Cons.prems have "distinct (map fst al)" and "(k, v) \<in> set al"
      by auto
    then show ?thesis
      by (cases p) (simp add: Cons.IH)
  qed
qed

lemma get_rarity_percentage:
  assumes "get_rarity percent data mapping tot = Inr rs" and "r \<in> set rs"
  shows "rarityPercentage r = percent (occurrenceCount r) tot @ ''%''"
proof -
  from assms have "r \<in> set (rarity_rows percent data mapping tot)"
    by (simp add: get_rarity_Inr [OF assms(1)])
  then obtain k n where kn: "(k, n) \<in> set (Counter data)"
    and r: "occurrenceCount r = n"
      "rarityPercentage r
         = dict_get (foldl (\<lambda>r (key, value). AList.update key (percent value tot @ ''%'') r)
                       [] (Counter data)) k []"
    by (auto simp: rarity_rows_def)
  from foldl_update_stored [OF distinct_keys_Counter kn, of "\<lambda>value. percent value tot @ ''%''"] r
  show ?thesis
    by simp
qed

text \<open>
  C7. The records that \<open>get_rarity\<close> returns are sorted in ascending order of
  \<open>occurrenceCount\<close>: of two consecutive records the first has the smaller or the same
  count.
\<close>

theorem get_rarity_sorted_by_count:
  assumes "get_rarity percent data mapping tot = Inr rs"
  shows "sorted (map occurrenceCount rs)"
  using get_rarity_Inr [OF assms] by (simp add: sorted_sort_key)

theorem get_rarity_sorted_by_count_witness:
  "get_rarity sample_percent [2 :: nat, 3, 3, 2, 4, 3] [(3, [10, 11, 13]), (2, [7, 12])] 6
     = Inr [\<lparr>key = 4, occurrenceCount = 1, rarityPercentage = ''?%'', tokenIds = []\<rparr>,
            \<lparr>key = 2, occurrenceCount = 2, rarityPercentage = ''?%'', tokenIds = [7, 12]\<rparr>,
            \<lparr>key = 3, occurrenceCount = 3, rarityPercentage = ''?%'', tokenIds = [10, 11, 13]\<rparr>]
   \<and> sorted [1 :: nat, 2, 3]"
proof -
  have g: "get_rarity sample_percent [2 :: nat, 3, 3, 2, 4, 3] [(3, [10, 11, 13]), (2, [7, 12])] 6
     = Inr [\<lparr>key = 4, occurrenceCount = 1, rarityPercentage = ''?%'', tokenIds = []\<rparr>,
            \<lparr>key = 2, occurrenceCount = 2, rarityPercentage = ''?%'', tokenIds = [7, 12]\<rparr>,
            \<lparr>key = 3, occurrenceCount = 3, rarityPercentage = ''?%'', tokenIds = [10, 11, 13]\<rparr>]"
    by code_simp
  from get_rarity_sorted_by_count [OF g] g show ?thesis
    by simp
qed

text \<open>
  C10. Records of \<open>get_rarity\<close> with equal \<open>occurrenceCount\<close> appear in the order in which
  their keys are first met in the data: whenever one record stands before another and both
  have the same count, the key of the first has the earlier first position in the data.
\<close>

theorem get_rarity_ties_in_first_seen_order:
  assumes "get_rarity percent data mapping tot = Inr rs"
  shows "sorted_wrt (\<lambda>r s. occurrenceCount r = occurrenceCount s
                        \<longrightarrow> first_index data (key r) < first_index data (key s)) rs"
proof -
  have "sorted_wrt (\<lambda>a b. first_index data a < first_index data b)
          (map key (rarity_rows percent data mapping tot))"
    by (simp only: keys_rarity_rows keys_Counter_first_seen)
  then have "sorted_wrt (\<lambda>r s. first_index data (key r) < first_index data (key s))
               (rarity_rows percent data mapping tot)"
    by (simp add: sorted_wrt_map)
  then show ?thesis
    unfolding get_rarity_Inr [OF assms] by (rule sort_key_ties)
qed

theorem get_rarity_ties_in_first_seen_order_witness:
  "get_rarity sample_percent scenario_words [] 9 = Inr scenario_records
   \<and> first_index scenario_words ''the'' = 0
   \<and> first_index scenario_words ''sat'' = 2
   \<and> sorted_wrt (\<lambda>r s. occurrenceCount r = occurrenceCount s
                    \<longrightarrow> first_index scenario_words (key r) < first_index scenario_words (key s))
        scenario_records"
proof -
  have g: "get_rarity sample_percent scenario_words [] 9 = Inr scenario_records"
    by code_simp
  have "first_index scenario_words ''the'' = 0" and "first_index scenario_words ''sat'' = 2"
    by (simp_all add: first_index_def)
  with get_rarity_ties_in_first_seen_order [OF g] g show ?thesis
    by blast
qed

subsection \<open>\<open>organize_text_data\<close>\<close>

lemma dict_get_words_fold:
  "dict_get (foldl (\<lambda>d word. dd_append d word t) d ws) w []
     = dict_get d w [] @ replicate (count_list ws w) t"
  by (induction ws arbitrary: d) (simp_all add: dict_get_dd_append replicate_append_same)

lemma store_text_fields:
  "output_words (store_text s t raw) = output_words s @ [tokenize (normalize_text raw)]"
  "output_total_word_counts (store_text s t raw)
     = output_total_word_counts s @ [length (tokenize (normalize_text raw))]"
  "output_complete_texts (store_text s t raw) = output_complete_texts s @ [normalize_text raw]"
  "dict_get (output_word_to_token_id (store_text s t raw)) w []
     = dict_get (output_word_to_token_id s) w []
       @ replicate (count_list (tokenize (normalize_text raw)) w) t"
  "dict_get (output_total_word_count_to_token_id (store_text s t raw)) n []
     = dict_get (output_total_word_count_to_token_id s) n []
       @ (if length (tokenize (normalize_text raw)) = n then [t] else [])"
  "dict_get (output_complete_text_to_token_id (store_text s t raw)) x []
     = dict_get (output_complete_text_to_token_id s) x []
       @ (if normalize_text raw = x then [t] else [])"
  by (auto simp: store_text_def Let_def dict_get_words_fold dict_get_dd_append)

text \<open>
  C6. The normalization of a fetched string is: lower-case it, then remove exactly its last
  character, the rest staying as it is. It is the normalized string that is stored as the
  complete text and that is tokenized. (Lower-casing keeps the length; of an empty string
  nothing is removed.)
\<close>

theorem normalize_text_lower_then_drop_last:
  "normalize_text raw = butlast (lower raw)
   \<and> length (lower raw) = length raw
   \<and> output_complete_texts (store_text s token_id raw)
       = output_complete_texts s @ [butlast (lower raw)]
   \<and> output_words (store_text s token_id raw)
       = output_words s @ [tokenize (butlast (lower raw))]"
  by (simp add: store_text_fields normalize_text_butlast lower_def)

theorem normalize_text_lower_then_drop_last_witness:
  "normalize_text ''Ab c.'' = ''ab c''"
proof -
  have "normalize_text ''Ab c.'' = butlast (lower ''Ab c.'')"
    using normalize_text_lower_then_drop_last [of "''Ab c.''"] by blast
  also have "\<dots> = ''ab c''"
    by code_simp
  finally show ?thesis .
qed

lemma store_all_Nil: "store_all contract s [] = s"
  by (simp add: store_all_def)

lemma store_all_Cons:
  "contract t = Some raw \<Longrightarrow> store_all contract s (t # ts) = store_all contract (store_text s t raw) ts"
  by (simp add: store_all_def)

lemma organize_loop_Cons_Inr:
  assumes "organize_loop contract s (t # ts) = (Inr s', evs)"
  obtains raw evs' where "contract t = Some raw"
    and "organize_loop contract (store_text s t raw) ts = (Inr s', evs')"
    and "evs = CallGetString t # evs'"
  using assms by (auto split: option.splits prod.splits)

text \<open>A run of the loop that ends normally made every call, none of which failed.\<close>

lemma organize_loop_Inr:
  assumes "organize_loop contract s ts = (Inr s', evs)"
  shows "s' = store_all contract s ts \<and> evs = map CallGetString ts
           \<and> list_all (\<lambda>t. contract t \<noteq> None) ts"
  using assms
proof (induction ts arbitrary: s evs)
  case Nil
  then show ?case by (simp add: store_all_Nil)
next
  case (Cons t ts)
  from Cons.prems obtain raw evs' where c: "contract t = Some raw"
    and l: "organize_loop contract (store_text s t raw) ts = (Inr s', evs')"
    and e: "evs = CallGetString t # evs'"
    by (rule organize_loop_Cons_Inr)
  from Cons.IH [OF l] c e show ?case
    by (simp add: store_all_Cons)
qed

text \<open>The loop ends normally when no call fails.\<close>

lemma organize_loop_returns:
  assumes "list_all (\<lambda>t. contract t \<noteq> None) ts"
  shows "\<exists>s'. organize_loop contract s ts = (Inr s', map CallGetString ts)"
  using assms
proof (induction ts arbitrary: s)
  case Nil
  show ?case by simp
next
  case (Cons t ts)
  then obtain raw where raw: "contract t = Some raw"
    by auto
  from Cons obtain s' where
    "organize_loop contract (store_text s t raw) ts = (Inr s', map CallGetString ts)"
    by fastforce
  then show ?case
    by (simp add: raw)
qed

lemma store_all_fields:
  assumes "list_all (\<lambda>t. contract t \<noteq> None) ts"
  shows "output_words (store_all contract s ts) = output_words s @ map (tokens_of contract) ts"
    and "output_total_word_counts (store_all contract s ts)
           = output_total_word_counts s @ map (\<lambda>t. length (tokens_of contract t)) ts"
    and "output_complete_texts (store_all contract s ts)
           = output_complete_texts s @ map (text_of contract) ts"
    and "dict_get (output_word_to_token_id (store_all contract s ts)) w []
           = dict_get (output_word_to_token_id s) w []
             @ concat (map (\<lambda>t. replicate (count_list (tokens_of contract t) w) t) ts)"
    and "dict_get (output_total_word_count_to_token_id (store_all contract s ts)) n []
           = dict_get (output_total_word_count_to_token_id s) n []
             @ filter (\<lambda>t. length (tokens_of contract t) = n) ts"
    and "dict_get (output_complete_text_to_token_id (store_all contract s ts)) x []
           = dict_get (output_complete_text_to_token_id s) x []
             @ filter (\<lambda>t. text_of contract t = x) ts"
  using assms
  by (induction ts arbitrary: s;
      auto simp: store_all_Nil store_all_Cons store_text_fields tokens_of_def text_of_def)+

text \<open>What \<open>organize_text_data\<close> returns, in terms of the texts of the identifiers.\<close>

lemma organize_text_data_Inr:
  assumes "organize_text_data claimed contract = (Inr d, evs)"
  shows "list_all (\<lambda>t. contract t \<noteq> None) claimed"
    and "evs = map CallGetString claimed"
    and "output_words d = concat (map (tokens_of contract) claimed)"
    and "output_total_word_counts d = map (\<lambda>t. length (tokens_of contract t)) claimed"
    and "output_complete_texts d = map (text_of contract) claimed"
    and "dict_get (output_word_to_token_id d) w []
           = concat (map (\<lambda>t. replicate (count_list (tokens_of contract t) w) t) claimed)"
    and "dict_get (output_total_word_count_to_token_id d) n []
           = filter (\<lambda>t. length (tokens_of contract t) = n) claimed"
    and "dict_get (output_complete_text_to_token_id d) x []
           = filter (\<lambda>t. text_of contract t = x) claimed"
proof -
  let ?init = "\<lparr>output_words = [], output_total_word_counts = [], output_complete_texts = [],
                output_word_to_token_id = [], output_total_word_count_to_token_id = [],
                output_complete_text_to_token_id = []\<rparr> :: string list text_data"
  from assms obtain s where loop: "organize_loop contract ?init claimed = (Inr s, evs)"
    and d: "d = \<lparr>output_words = concat (output_words s),
                output_total_word_counts = output_total_word_counts s,
                output_complete_texts = output_complete_texts s,
                output_word_to_token_id = output_word_to_token_id s,
                output_total_word_count_to_token_id = output_total_word_count_to_token_id s,
                output_complete_text_to_token_id = output_complete_text_to_token_id s\<rparr>"
    by (auto simp: organize_text_data_def split: prod.splits sum.splits)
  from organize_loop_Inr [OF loop] have s: "s = store_all contract ?init claimed"
    and e: "evs = map CallGetString claimed"
    and ok: "list_all (\<lambda>t. contract t \<noteq> None) claimed"
    by simp_all
  show "list_all (\<lambda>t. contract t \<noteq> None) claimed" by (rule ok)
  show "evs = map CallGetString claimed" by (rule e)
  show "output_words d = concat (map (tokens_of contract) claimed)"
    by (simp add: d s store_all_fields(1) [OF ok])
  show "output_total_word_counts d = map (\<lambda>t. length (tokens_of contract t)) claimed"
    by (simp add: d s store_all_fields(2) [OF ok])
  show "output_complete_texts d = map (text_of contract) claimed"
    by (simp add: d s store_all_fields(3) [OF ok])
  show "dict_get (output_word_to_token_id d) w []
           = concat (map (\<lambda>t. replicate (count_list (tokens_of contract t) w) t) claimed)"
    by (simp add: d s store_all_fields(4) [OF ok] dict_get_Nil)
  show "dict_get (output_total_word_count_to_token_id d) n []
           = filter (\<lambda>t. length (tokens_of contract t) = n) claimed"
    by (simp add: d s store_all_fields(5) [OF ok] dict_get_Nil)
  show "dict_get (output_complete_text_to_token_id d) x []
           = filter (\<lambda>t. text_of contract t = x) claimed"
    by (simp add: d s store_all_fields(6) [OF ok] dict_get_Nil)
qed

lemma organize_text_data_returns:
  assumes "list_all (\<lambda>t. contract t \<noteq> None) claimed"
  shows "\<exists>d. organize_text_data claimed contract = (Inr d, map CallGetString claimed)"
proof -
  from organize_loop_returns [OF assms] obtain s where
    "organize_loop contract
       \<lparr>output_words = [], output_total_word_counts = [], output_complete_texts = [],
        output_word_to_token_id = [], output_total_word_count_to_token_id = [],
        output_complete_text_to_token_id = []\<rparr> claimed = (Inr s, map CallGetString claimed)"
    by blast
  then show ?thesis
    by (simp add: organize_text_data_def)
qed

lemma length_concat_replicate:
  "length (concat (map (\<lambda>t. replicate (count_list (f t) w) t) ts)) = count_list (concat (map f ts)) w"
  by (induction ts) simp_all

lemma length_filter_count:
  "length (filter (\<lambda>t. f t = x) ts) = count_list (map f ts) x"
  by (induction ts) simp_all

lemma count_list_replicate: "count_list (replicate n x) a = (if x = a then n else 0)"
  by (induction n) auto

lemma count_concat_replicate:
  "count_list (concat (map (\<lambda>t. replicate (g t) t) ts)) a = count_list ts a * g a"
  by (induction ts) (simp_all add: count_list_replicate)

lemma sample_organized:
  "organize_text_data [7, 8] sample_contract = (Inr sample_data, [CallGetString 7, CallGetString 8])"
  by code_simp

text \<open>
  C5. The mapping from words to identifiers receives an identifier once per occurrence of
  the word in the text of that identifier, without de-duplication: the list of a word is the
  claimed identifiers in order, each repeated as often as the word occurs among its tokens.
  So an identifier whose text holds the word \<open>k\<close> times stands \<open>k\<close> times in the list of
  the word, for each time the identifier itself was claimed.
\<close>

theorem word_to_token_id_once_per_occurrence:
  assumes "organize_text_data claimed contract = (Inr d, evs)"
    and "contract token_id = Some raw"
  shows "dict_get (output_word_to_token_id d) word []
           = concat (map (\<lambda>t. replicate (count_list (tokens_of contract t) word) t) claimed)
         \<and> count_list (dict_get (output_word_to_token_id d) word []) token_id
           = count_list claimed token_id * count_list (tokenize (normalize_text raw)) word"
proof -
  have eq: "dict_get (output_word_to_token_id d) word []
           = concat (map (\<lambda>t. replicate (count_list (tokens_of contract t) word) t) claimed)"
    by (rule organize_text_data_Inr(6) [OF assms(1)])
  have "tokens_of contract token_id = tokenize (normalize_text raw)"
    by (simp add: tokens_of_def text_of_def assms(2))
  with eq show ?thesis
    by (simp add: count_concat_replicate)
qed

theorem word_to_token_id_once_per_occurrence_witness:
  "organize_text_data [7, 8] sample_contract = (Inr sample_data, [CallGetString 7, CallGetString 8])
   \<and> sample_contract 7 = Some ''The cat the.''
   \<and> tokenize (normalize_text ''The cat the.'') = [''the'', ''cat'', ''the'']
   \<and> dict_get (output_word_to_token_id sample_data) ''the'' [] = [7, 7, 8]
   \<and> count_list (dict_get (output_word_to_token_id sample_data) ''the'' []) 7
       = count_list [7, 8 :: int] 7 * count_list (tokenize (normalize_text ''The cat the.'')) ''the''"
proof -
  have c: "sample_contract 7 = Some ''The cat the.''"
    by simp
  have t: "tokenize (normalize_text ''The cat the.'') = [''the'', ''cat'', ''the'']"
    by code_simp
  have l: "dict_get (output_word_to_token_id sample_data) ''the'' [] = [7, 7, 8]"
    by code_simp
  from word_to_token_id_once_per_occurrence [OF sample_organized c, of "''the''"]
    sample_organized c t l
  show ?thesis
    by blast
qed

subsection \<open>The three rarity tables\<close>

text \<open>
  C9. When \<open>get_rarity\<close> is called on a data sequence of the aggregator with the mapping
  that belongs to it (the words with the word mapping, the word counts with the word-count
  mapping, the complete texts with the text mapping), whatever the denominator, the
  identifier list of every record is as long as the record's \<open>occurrenceCount\<close>.
\<close>

theorem token_ids_length_is_count:
  assumes "organize_text_data claimed contract = (Inr d, evs)"
  shows "(get_rarity percent (output_words d) (output_word_to_token_id d) tot1 = Inr words
            \<longrightarrow> list_all (\<lambda>r. length (tokenIds r) = occurrenceCount r) words)
       \<and> (get_rarity percent (output_total_word_counts d)
              (output_total_word_count_to_token_id d) tot2 = Inr total_word_counts
            \<longrightarrow> list_all (\<lambda>r. length (tokenIds r) = occurrenceCount r) total_word_counts)
       \<and> (get_rarity percent (output_complete_texts d)
              (output_complete_text_to_token_id d) tot3 = Inr complete_texts
            \<longrightarrow> list_all (\<lambda>r. length (tokenIds r) = occurrenceCount r) complete_texts)"
proof (intro conjI impI)
  note org = organize_text_data_Inr [OF assms]
  {
    assume g: "get_rarity percent (output_words d) (output_word_to_token_id d) tot1 = Inr words"
    have "length (tokenIds r) = occurrenceCount r" if "r \<in> set words" for r
      using get_rarity_row(2,3) [OF g that]
      by (simp add: org(6) org(3) length_concat_replicate)
    then show "list_all (\<lambda>r. length (tokenIds r) = occurrenceCount r) words"
      by (simp add: list_all_iff)
  }
  {
    assume g: "get_rarity percent (output_total_word_counts d)
                 (output_total_word_count_to_token_id d) tot2 = Inr total_word_counts"
    have "length (tokenIds r) = occurrenceCount r" if "r \<in> set total_word_counts" for r
      using get_rarity_row(2,3) [OF g that]
      by (simp add: org(7) org(4) length_filter_count)
    then show "list_all (\<lambda>r. length (tokenIds r) = occurrenceCount r) total_word_counts"
      by (simp add: list_all_iff)
  }
  {
    assume g: "get_rarity percent (output_complete_texts d)
                 (output_complete_text_to_token_id d) tot3 = Inr complete_texts"
    have "length (tokenIds r) = occurrenceCount r" if "r \<in> set complete_texts" for r
      using get_rarity_row(2,3) [OF g that]
      by (simp add: org(8) org(5) length_filter_count)
    then show "list_all (\<lambda>r. length (tokenIds r) = occurrenceCount r) complete_texts"
      by (simp add: list_all_iff)
  }
qed

theorem token_ids_length_is_count_witness:
  "organize_text_data [7, 8] sample_contract = (Inr sample_data, [CallGetString 7, CallGetString 8])
   \<and> get_rarity sample_percent (output_words sample_data) (output_word_to_token_id sample_data) 5
       = Inr sample_words
   \<and> list_all (\<lambda>r. length (tokenIds r) = occurrenceCount r) sample_words
   \<and> get_rarity sample_percent (output_total_word_counts sample_data)
         (output_total_word_count_to_token_id sample_data) 2 = Inr sample_total_word_counts
   \<and> list_all (\<lambda>r. length (tokenIds r) = occurrenceCount r) sample_total_word_counts
   \<and> get_rarity sample_percent (output_complete_texts sample_data)
         (output_complete_text_to_token_id sample_data) 2 = Inr sample_complete_texts
   \<and> list_all (\<lambda>r. length (tokenIds r) = occurrenceCount r) sample_complete_texts"
proof -
  have w: "get_rarity sample_percent (output_words sample_data)
             (output_word_to_token_id sample_data) 5 = Inr sample_words"
    by code_simp
  have c: "get_rarity sample_percent (output_total_word_counts sample_data)
             (output_total_word_count_to_token_id sample_data) 2 = Inr sample_total_word_counts"
    by code_simp
  have x: "get_rarity sample_percent (output_complete_texts sample_data)
             (output_complete_text_to_token_id sample_data) 2 = Inr sample_complete_texts"
    by code_simp
  from token_ids_length_is_count [OF sample_organized, of sample_percent 5 sample_words
         2 sample_total_word_counts 2 sample_complete_texts]
    sample_organized w c x
  show ?thesis
    by blast
qed

text \<open>
  C2. In the program, where no contract call fails and the number of claimed identifiers
  is the universe size 5000, the three calls of \<open>get_rarity\<close> return, and the
  \<open>occurrenceCount\<close>s of the records of each add up to the denominator it was given: the
  length of the flattened list of all words for the word mapping, and the universe size for
  the word-count mapping and for the complete-text mapping. The program reaches the three
  calls, and ends with their three results, when at least one text has a word; when no text
  has one it ends before them, with the \<open>IndexError\<close> of the statistics.
\<close>

theorem occurrence_counts_sum_to_total:
  assumes "list_all (\<lambda>t. contract t \<noteq> None) claimed"
    and "int (length claimed) = MAX_SUPPLY"
  shows "\<exists>d evs words total_word_counts complete_texts.
           organize_text_data claimed contract = (Inr d, evs)
         \<and> get_rarity percent (output_words d) (output_word_to_token_id d)
               (int (length (output_words d))) = Inr words
         \<and> int (sum_list (map occurrenceCount words)) = int (length (output_words d))
         \<and> get_rarity percent (output_total_word_counts d)
               (output_total_word_count_to_token_id d) MAX_SUPPLY = Inr total_word_counts
         \<and> int (sum_list (map occurrenceCount total_word_counts)) = MAX_SUPPLY
         \<and> get_rarity percent (output_complete_texts d)
               (output_complete_text_to_token_id d) MAX_SUPPLY = Inr complete_texts
         \<and> int (sum_list (map occurrenceCount complete_texts)) = MAX_SUPPLY
         \<and> rarity_tables percent claimed contract
             = (if output_words d = [] then Inl IndexError
                else Inr (words, total_word_counts, complete_texts), evs)"
proof -
  from organize_text_data_returns [OF assms(1)] obtain d where
    org: "organize_text_data claimed contract = (Inr d, map CallGetString claimed)"
    by blast
  have "int (length (output_words d)) \<noteq> 0 \<or> output_words d = []"
    by auto
  then have "\<exists>rs. get_rarity percent (output_words d) (output_word_to_token_id d)
                 (int (length (output_words d))) = Inr rs"
    by (simp only: get_rarity_returns)
  then obtain words where
    w: "get_rarity percent (output_words d) (output_word_to_token_id d)
          (int (length (output_words d))) = Inr words" ..
  have pos: "MAX_SUPPLY \<noteq> 0 \<or> data = []" for data :: "'x list"
    by (simp add: MAX_SUPPLY_def)
  have "\<exists>rs. get_rarity percent (output_total_word_counts d)
              (output_total_word_count_to_token_id d) MAX_SUPPLY = Inr rs"
    using pos by (simp only: get_rarity_returns)
  then obtain total_word_counts where
    c: "get_rarity percent (output_total_word_counts d)
          (output_total_word_count_to_token_id d) MAX_SUPPLY = Inr total_word_counts" ..
  have "\<exists>rs. get_rarity percent (output_complete_texts d)
              (output_complete_text_to_token_id d) MAX_SUPPLY = Inr rs"
    using pos by (simp only: get_rarity_returns)
  then obtain complete_texts where
    x: "get_rarity percent (output_complete_texts d)
          (output_complete_text_to_token_id d) MAX_SUPPLY = Inr complete_texts" ..
  have "length (output_total_word_counts d) = length claimed"
    and "length (output_complete_texts d) = length claimed"
    by (simp_all add: organize_text_data_Inr(4,5) [OF org])
  with assms(2) have "int (sum_list (map occurrenceCount total_word_counts)) = MAX_SUPPLY"
    and "int (sum_list (map occurrenceCount complete_texts)) = MAX_SUPPLY"
    by (simp_all add: get_rarity_sum [OF c] get_rarity_sum [OF x])
  moreover have "int (sum_list (map occurrenceCount words)) = int (length (output_words d))"
    by (simp add: get_rarity_sum [OF w])
  moreover have "output_total_word_counts d \<noteq> []"
    using \<open>length (output_total_word_counts d) = length claimed\<close> assms(2)
    by (auto simp: MAX_SUPPLY_def)
  then have "rarity_tables percent claimed contract
               = (if output_words d = [] then Inl IndexError
                  else Inr (words, total_word_counts, complete_texts), map CallGetString claimed)"
    by (simp add: rarity_tables_def print_descriptive_stats_def org w c x)
  ultimately show ?thesis
    using org w c x by blast
qed

theorem occurrence_counts_sum_to_total_witness:
  "list_all (\<lambda>t. (\<lambda>token_id. Some ''The cat sat.'') t \<noteq> None) (map int [0..<5000])
   \<and> int (length (map int [0..<5000])) = MAX_SUPPLY
   \<and> (\<exists>d evs words total_word_counts complete_texts.
           organize_text_data (map int [0..<5000]) (\<lambda>token_id. Some ''The cat sat.'') = (Inr d, evs)
         \<and> get_rarity sample_percent (output_words d) (output_word_to_token_id d)
               (int (length (output_words d))) = Inr words
         \<and> int (sum_list (map occurrenceCount words)) = int (length (output_words d))
         \<and> get_rarity sample_percent (output_total_word_counts d)
               (output_total_word_count_to_token_id d) MAX_SUPPLY = Inr total_word_counts
         \<and> int (sum_list (map occurrenceCount total_word_counts)) = MAX_SUPPLY
         \<and> get_rarity sample_percent (output_complete_texts d)
               (output_complete_text_to_token_id d) MAX_SUPPLY = Inr complete_texts
         \<and> int (sum_list (map occurrenceCount complete_texts)) = MAX_SUPPLY
         \<and> output_words d \<noteq> []
         \<and> rarity_tables sample_percent (map int [0..<5000]) (\<lambda>token_id. Some ''The cat sat.'')
             = (Inr (words, total_word_counts, complete_texts), evs))"
proof -
  let ?contract = "\<lambda>token_id :: int. Some ''The cat sat.''"
  let ?claimed = "map int [0..<5000]"
  have h1: "list_all (\<lambda>t. ?contract t \<noteq> None) ?claimed"
    by (simp add: list_all_iff)
  have h2: "int (length ?claimed) = MAX_SUPPLY"
    by (simp add: MAX_SUPPLY_def)
  from occurrence_counts_sum_to_total [OF h1 h2, of sample_percent]
  obtain d evs words total_word_counts complete_texts where
    org: "organize_text_data ?claimed ?contract = (Inr d, evs)"
    and w: "get_rarity sample_percent (output_words d) (output_word_to_token_id d)
              (int (length (output_words d))) = Inr words"
      "int (sum_list (map occurrenceCount words)) = int (length (output_words d))"
    and c: "get_rarity sample_percent (output_total_word_counts d)
              (output_total_word_count_to_token_id d) MAX_SUPPLY = Inr total_word_counts"
      "int (sum_list (map occurrenceCount total_word_counts)) = MAX_SUPPLY"
    and x: "get_rarity sample_percent (output_complete_texts d)
              (output_complete_text_to_token_id d) MAX_SUPPLY = Inr complete_texts"
      "int (sum_list (map occurrenceCount complete_texts)) = MAX_SUPPLY"
    and r: "rarity_tables sample_percent ?claimed ?contract
              = (if output_words d = [] then Inl IndexError
                 else Inr (words, total_word_counts, complete_texts), evs)"
    by blast
  have "tokenize (normalize_text ''The cat sat.'') = [''the'', ''cat'', ''sat'']"
    by code_simp
  then have "tokens_of ?contract = (\<lambda>t. [''the'', ''cat'', ''sat''])"
    by (simp add: fun_eq_iff tokens_of_def text_of_def)
  then have "output_words d = concat (map (\<lambda>t. [''the'', ''cat'', ''sat'']) ?claimed)"
    by (simp only: organize_text_data_Inr(3) [OF org])
  moreover have "concat (map (\<lambda>t. [''the'', ''cat'', ''sat'']) ts) \<noteq> []"
    if "ts \<noteq> []" for ts :: "int list"
    using that by (cases ts) simp_all
  moreover have "?claimed \<noteq> []"
    by simp
  ultimately have words: "output_words d \<noteq> []"
    by (simp only:)
  with r have "rarity_tables sample_percent ?claimed ?contract
                 = (Inr (words, total_word_counts, complete_texts), evs)"
    by simp
  with h1 h2 org w c x words show ?thesis
    by blast
qed

subsection \<open>The enumerator and the sanity check\<close>

text \<open>When every page is answered, the loop started at a multiple of the page size requests
  the remaining pages in order and appends them.\<close>

lemma claimed_loop_pages:
  assumes pages: "\<forall>k<100. opensea_assets svc (int k * LIMIT) LIMIT = Some (page k)"
    and m: "m \<le> 100"
  shows "claimed_loop svc (int m * LIMIT) claimed
           = (Inr (claimed @ concat (map page [m..<100])),
              map (\<lambda>k. GetAssets (int k * LIMIT) LIMIT) [m..<100])"
  using m
proof (induction m arbitrary: claimed rule: inc_induct)
  case base
  have "\<not> int 100 * LIMIT \<le> MAX_SUPPLY - LIMIT"
    by (simp add: LIMIT_def MAX_SUPPLY_def)
  then show ?case
    by (subst claimed_loop.simps) simp
next
  case (step n)
  have le: "int n * LIMIT \<le> MAX_SUPPLY - LIMIT"
    using step.hyps by (simp add: LIMIT_def MAX_SUPPLY_def)
  have p: "opensea_assets svc (int n * LIMIT) LIMIT = Some (page n)"
    using pages step.hyps by simp
  have next_offset: "int n * LIMIT + LIMIT = int (Suc n) * LIMIT"
    by (simp add: algebra_simps)
  have upt: "[n..<100] = n # [Suc n..<100]"
    using step.hyps by (simp add: upt_conv_Cons)
  show ?case
    by (subst claimed_loop.simps)
       (simp add: le p send_request_def next_offset step.IH upt del: of_nat_Suc)
qed

lemma offsets_requested: "int k * LIMIT \<le> MAX_SUPPLY - LIMIT \<longleftrightarrow> k < 100"
  by (simp add: LIMIT_def MAX_SUPPLY_def) arith

text \<open>
  C4. The enumerator requests pages of size 50, starting at offset 0 and advancing the
  offset by 50 after each request, and it requests exactly the offsets that do not exceed
  the universe size minus the page size (the multiples of 50 up to 4950): when every
  request is answered, these hundred requests are all it makes, and it returns the pages
  joined in order. After the enumeration, if the number of identifiers differs from 5000,
  the program prints its diagnostic and ends: nothing follows the diagnostic, and no text
  is fetched.
\<close>

theorem enumerator_pages_and_sanity_check:
  assumes "\<forall>k<100. opensea_assets svc (int k * LIMIT) LIMIT = Some (page k)"
  shows "LIMIT = 50
         \<and> get_claimed_token_ids svc
           = (Inr (concat (map page [0..<100])),
              map (\<lambda>k. GetAssets (int k * LIMIT) LIMIT) [0..<100])
         \<and> (\<forall>k. int k * LIMIT \<le> MAX_SUPPLY - LIMIT \<longleftrightarrow> k < 100)
         \<and> (etherscan_getabi svc = Some () \<and> int (length (concat (map page [0..<100]))) \<noteq> MAX_SUPPLY
              \<longrightarrow> main percent svc
                    = (Inl SanityCheckFailed,
                       GetAbi # map (\<lambda>k. GetAssets (int k * LIMIT) LIMIT) [0..<100]
                       @ [Print ''There should be 5000 tokens. Something went wrong.'']))"
proof -
  have enum: "get_claimed_token_ids svc
           = (Inr (concat (map page [0..<100])),
              map (\<lambda>k. GetAssets (int k * LIMIT) LIMIT) [0..<100])"
    using claimed_loop_pages [OF assms, of 0 "[]"] by (simp add: get_claimed_token_ids_def)
  have "main percent svc
          = (Inl SanityCheckFailed,
             GetAbi # map (\<lambda>k. GetAssets (int k * LIMIT) LIMIT) [0..<100]
             @ [Print ''There should be 5000 tokens. Something went wrong.''])"
    if "etherscan_getabi svc = Some ()"
      and "int (length (concat (map page [0..<100]))) \<noteq> MAX_SUPPLY"
    using that by (simp add: main_def connect_to_contract_def send_request_def enum)
  with enum offsets_requested LIMIT_def show ?thesis
    by blast
qed

theorem enumerator_pages_and_sanity_check_witness:
  "get_claimed_token_ids empty_index
     = (Inr [], map (\<lambda>k. GetAssets (int k * LIMIT) LIMIT) [0..<100])
   \<and> main sample_percent empty_index
       = (Inl SanityCheckFailed,
          GetAbi # map (\<lambda>k. GetAssets (int k * LIMIT) LIMIT) [0..<100]
          @ [Print ''There should be 5000 tokens. Something went wrong.''])"
proof -
  have pages: "\<forall>k<100. opensea_assets empty_index (int k * LIMIT) LIMIT = Some ((\<lambda>k. []) k)"
    by simp
  have empty: "concat (map (\<lambda>k::nat. [] :: int list) [0..<100]) = []"
    by simp
  from enumerator_pages_and_sanity_check [OF pages, of sample_percent] show ?thesis
    unfolding empty by (simp add: MAX_SUPPLY_def)
qed

end
